theory Spec2Isabelle
  imports Complex_Main
begin

section \<open>Floating-point values\<close>

text \<open>
  The program computes with numpy/pandas \<open>float64\<close> cells. A finite cell is modelled by the
  real number it stands for (no rounding, no overflow, no signed zero); the three special
  values that the program's own arithmetic can produce from finite inputs (division by
  zero, logarithm of a non-positive number, statistics of an empty series) are kept apart,
  because \<open>dropna\<close> and \<open>skipna\<close> treat \<open>NaN\<close> and the infinities differently.

  The rounding of each \<open>float64\<close> operation happens inside numpy and pandas, whose summation
  and variance algorithms are not part of the module. Nothing below is therefore stated
  about a property that one unit of rounding can decide: whether a computed standard
  deviation is exactly zero, or whether a computed mean of cells that are all at most \<open>q\<close>
  is itself at most \<open>q\<close>. On the series \<open>0.1, 0.1, 0.1\<close> the \<open>float64\<close> mean is above \<open>0.1\<close> and
  the \<open>float64\<close> standard deviation is not zero, while the exact values are \<open>0.1\<close> and \<open>0\<close>.
\<close>

datatype fval = Num real | NaN | PInf | NInf

definition signed_inf :: "real \<Rightarrow> fval" where
  "signed_inf s = (if 0 < s then PInf else if s < 0 then NInf else NaN)"

fun is_nan :: "fval \<Rightarrow> bool" where
  "is_nan NaN = True"
| "is_nan _ = False"

fun fneg :: "fval \<Rightarrow> fval" where
  "fneg (Num a) = Num (- a)"
| "fneg NaN = NaN"
| "fneg PInf = NInf"
| "fneg NInf = PInf"

fun fadd :: "fval \<Rightarrow> fval \<Rightarrow> fval" where
  "fadd (Num a) (Num b) = Num (a + b)"
| "fadd NaN _ = NaN"
| "fadd _ NaN = NaN"
| "fadd PInf NInf = NaN"
| "fadd NInf PInf = NaN"
| "fadd PInf _ = PInf"
| "fadd _ PInf = PInf"
| "fadd NInf _ = NInf"
| "fadd _ NInf = NInf"

definition fsub :: "fval \<Rightarrow> fval \<Rightarrow> fval" where
  "fsub a b = fadd a (fneg b)"

fun fmul :: "fval \<Rightarrow> fval \<Rightarrow> fval" where
  "fmul (Num a) (Num b) = Num (a * b)"
| "fmul NaN _ = NaN"
| "fmul _ NaN = NaN"
| "fmul PInf (Num b) = signed_inf b"
| "fmul NInf (Num b) = signed_inf (- b)"
| "fmul (Num a) PInf = signed_inf a"
| "fmul (Num a) NInf = signed_inf (- a)"
| "fmul PInf PInf = PInf"
| "fmul PInf NInf = NInf"
| "fmul NInf PInf = NInf"
| "fmul NInf NInf = PInf"

text \<open>Division: a finite value over zero is an infinity of the numerator's sign, and
  \<open>0 / 0\<close> is \<open>NaN\<close>; numpy warns and carries on, it does not raise.\<close>

fun fdiv :: "fval \<Rightarrow> fval \<Rightarrow> fval" where
  "fdiv (Num a) (Num b) = (if b = 0 then signed_inf a else Num (a / b))"
| "fdiv NaN _ = NaN"
| "fdiv _ NaN = NaN"
| "fdiv (Num a) PInf = Num 0"
| "fdiv (Num a) NInf = Num 0"
| "fdiv PInf (Num b) = (if 0 \<le> b then PInf else NInf)"
| "fdiv NInf (Num b) = (if 0 \<le> b then NInf else PInf)"
| "fdiv PInf PInf = NaN"
| "fdiv PInf NInf = NaN"
| "fdiv NInf PInf = NaN"
| "fdiv NInf NInf = NaN"

text \<open>\<open>np.log\<close> and \<open>np.sqrt\<close> on a finite argument.\<close>

definition flog :: "real \<Rightarrow> fval" where
  "flog x = (if 0 < x then Num (ln x) else if x = 0 then NInf else NaN)"

definition fsqrt :: "real \<Rightarrow> fval" where
  "fsqrt x = (if x < 0 then NaN else Num (sqrt x))"

section \<open>Tables\<close>

text \<open>
  A pandas \<open>Series\<close> is the list of its cells in index order; a \<open>DataFrame\<close> is the list
  of its columns, each a series over the same index. Input tables hold finite cells only.
  A table without columns is taken to have no rows.
\<close>

type_synonym series = "real list"
type_synonym frame = "real list list"

definition nrows :: "'a list list \<Rightarrow> nat" where
  "nrows cols = (case cols of [] \<Rightarrow> 0 | c # _ \<Rightarrow> length c)"

text \<open>The Python exceptions the modelled functions raise; each is a \<open>ValueError\<close>.\<close>

datatype error =
    InvalidMethod       \<comment> \<open>\<open>ValueError("method must be 'simple' or 'log'")\<close>\<close>
  | ShapeMismatch       \<comment> \<open>\<open>returns @ w\<close> with a weight count other than the column count\<close>
  | InvalidPercentile   \<comment> \<open>\<open>quantile\<close> with a level outside \<open>[0, 1]\<close>\<close>

section \<open>Prices to returns\<close>

text \<open>\<open>Series.pct_change\<close>: the first cell has no predecessor and is \<open>NaN\<close>; every later
  cell is \<open>P_t / P_{t-1} - 1\<close>.\<close>

fun pct_change :: "series \<Rightarrow> fval list" where
  "pct_change [] = []"
| "pct_change (p # ps) =
     NaN # map2 (\<lambda>prev cur. fsub (fdiv (Num cur) (Num prev)) (Num 1)) (p # ps) ps"

definition np_log :: "series \<Rightarrow> fval list" where
  "np_log ps = map flog ps"

text \<open>\<open>Series.diff\<close>: first cell \<open>NaN\<close>, then \<open>x_t - x_{t-1}\<close>.\<close>

fun diff :: "fval list \<Rightarrow> fval list" where
  "diff [] = []"
| "diff (x # xs) = NaN # map2 (\<lambda>prev cur. fsub cur prev) (x # xs) xs"

text \<open>\<open>DataFrame.dropna()\<close>: a row is kept when none of its cells is \<open>NaN\<close>.\<close>

definition keep_mask :: "fval list list \<Rightarrow> bool list" where
  "keep_mask cols =
     foldr (\<lambda>c m. map2 (\<lambda>x k. \<not> is_nan x \<and> k) c m) cols (replicate (nrows cols) True)"

definition select_rows :: "bool list \<Rightarrow> 'a list \<Rightarrow> 'a list" where
  "select_rows keep c = map fst (filter snd (zip c keep))"

definition dropna :: "fval list list \<Rightarrow> fval list list" where
  "dropna cols = map (select_rows (keep_mask cols)) cols"

definition to_returns :: "frame \<Rightarrow> string \<Rightarrow> bool \<Rightarrow> error + fval list list" where
  "to_returns prices method dropna_flag =
     (case (if method = ''simple'' then Inr (map pct_change prices)
            else if method = ''log'' then Inr (map (\<lambda>c. diff (np_log c)) prices)
            else Inl InvalidMethod) of
        Inl e \<Rightarrow> Inl e
      | Inr ret \<Rightarrow> Inr (if dropna_flag then dropna ret else ret))"

section \<open>Risk metrics\<close>

text \<open>The declared statistics record of the module. No function of the module builds it.\<close>

record RiskStats =
  ann_return :: fval
  ann_vol :: fval
  sharpe :: fval
  cagr :: fval
  max_drawdown_field :: fval
  cvar_95 :: fval

text \<open>\<open>Series.mean()\<close>: \<open>NaN\<close> on an empty series; otherwise the exact sum over the exact count,
  without the rounding of the \<open>float64\<close> sum and quotient.\<close>

definition mean_s :: "series \<Rightarrow> fval" where
  "mean_s xs = (if xs = [] then NaN else Num (sum_list xs / real (length xs)))"

text \<open>\<open>Series.std(ddof)\<close>: the sum of squared deviations from the mean is divided by
  \<open>n - ddof\<close>; \<open>NaN\<close> when \<open>n \<le> ddof\<close>. The value is the exact one: which estimator is
  computed is modelled, the rounding of the result is not.\<close>

definition std_s :: "nat \<Rightarrow> series \<Rightarrow> fval" where
  "std_s ddof xs =
     (let n = length xs in
      if n \<le> ddof then NaN
      else let avg = sum_list xs / real n
           in Num (sqrt ((\<Sum>x\<leftarrow>xs. (x - avg)\<^sup>2) / real (n - ddof))))"

definition annualize_mean_vol :: "frame \<Rightarrow> int \<Rightarrow> fval list \<times> fval list" where
  "annualize_mean_vol returns periods_per_year =
     (let mu = map (\<lambda>c. fmul (mean_s c) (Num (real_of_int periods_per_year))) returns;
          vol = map (\<lambda>c. fmul (std_s 0 c) (fsqrt (real_of_int periods_per_year))) returns
      in (mu, vol))"

text \<open>\<open>Series.cummax()\<close>: the running maximum, the current cell included.\<close>

fun cummax_from :: "real \<Rightarrow> series \<Rightarrow> series" where
  "cummax_from m [] = []"
| "cummax_from m (x # xs) = max m x # cummax_from (max m x) xs"

fun cummax :: "series \<Rightarrow> series" where
  "cummax [] = []"
| "cummax (x # xs) = x # cummax_from x xs"

text \<open>\<open>Series.min()\<close> with \<open>skipna\<close>: the least cell that is not \<open>NaN\<close>, and \<open>NaN\<close> when
  there is none.\<close>

fun fmin2 :: "fval \<Rightarrow> fval \<Rightarrow> fval" where
  "fmin2 (Num a) (Num b) = Num (min a b)"
| "fmin2 NInf _ = NInf"
| "fmin2 _ NInf = NInf"
| "fmin2 PInf b = b"
| "fmin2 a PInf = a"
| "fmin2 NaN b = b"
| "fmin2 a NaN = a"

definition fmin_skipna :: "fval list \<Rightarrow> fval" where
  "fmin_skipna xs =
     (case filter (\<lambda>x. \<not> is_nan x) xs of [] \<Rightarrow> NaN | y # ys \<Rightarrow> fold fmin2 ys y)"

definition max_drawdown :: "series \<Rightarrow> fval" where
  "max_drawdown prices =
     (let cm = cummax prices;
          drawdown = map2 (\<lambda>p m. fsub (fdiv (Num p) (Num m)) (Num 1)) prices cm
      in fmin_skipna drawdown)"

text \<open>\<open>Series.quantile(q)\<close>: the level is validated first; an empty series gives \<open>NaN\<close>;
  otherwise the sorted cells are interpolated linearly at position \<open>(n - 1) * q\<close>.\<close>

definition quantile_s :: "series \<Rightarrow> real \<Rightarrow> error + fval" where
  "quantile_s xs q =
     (if q < 0 \<or> 1 < q then Inl InvalidPercentile
      else if xs = [] then Inr NaN
      else let s = sort xs;
               n = length xs;
               h = real (n - 1) * q;
               lo = nat \<lfloor>h\<rfloor>;
               hi = min (lo + 1) (n - 1);
               g = h - real lo
           in Inr (Num (s ! lo + g * (s ! hi - s ! lo))))"

text \<open>The comparison \<open>x <= q\<close> of a finite cell with a float.\<close>

fun le_fval :: "real \<Rightarrow> fval \<Rightarrow> bool" where
  "le_fval x (Num y) = (x \<le> y)"
| "le_fval x NaN = False"
| "le_fval x PInf = True"
| "le_fval x NInf = False"

definition cvar :: "series \<Rightarrow> real \<Rightarrow> error + fval" where
  "cvar returns alpha =
     (case quantile_s returns (1 - alpha) of
        Inl e \<Rightarrow> Inl e
      | Inr q \<Rightarrow> (let tail = filter (\<lambda>r. le_fval r q) returns
                  in Inr (fneg (mean_s tail))))"

section \<open>Portfolio evaluation\<close>

text \<open>\<open>returns @ w\<close>: one dot product per row; a weight count other than the column count
  raises.\<close>

definition row_at :: "frame \<Rightarrow> nat \<Rightarrow> real list" where
  "row_at cols t = map (\<lambda>c. c ! t) cols"

definition matvec :: "frame \<Rightarrow> real list \<Rightarrow> error + series" where
  "matvec cols w =
     (if length cols \<noteq> length w then Inl ShapeMismatch
      else Inr (map (\<lambda>t. sum_list (map2 (*) (row_at cols t) w)) [0..<nrows cols]))"

text \<open>\<open>Series.cumprod()\<close>.\<close>

fun cumprod_from :: "real \<Rightarrow> series \<Rightarrow> series" where
  "cumprod_from acc [] = []"
| "cumprod_from acc (x # xs) = (acc * x) # cumprod_from (acc * x) xs"

definition cumprod :: "series \<Rightarrow> series" where
  "cumprod xs = cumprod_from 1 xs"

text \<open>The dictionary that \<open>portfolio_stats\<close> returns, as the list of its items in the order
  of the dictionary display.\<close>

definition portfolio_stats ::
  "real list \<Rightarrow> frame \<Rightarrow> real \<Rightarrow> int \<Rightarrow> error + (string \<times> fval) list" where
  "portfolio_stats weights returns rf periods_per_year =
     (case matvec returns weights of
        Inl e \<Rightarrow> Inl e
      | Inr port_ret \<Rightarrow>
          (let ann_ret = fmul (mean_s port_ret) (Num (real_of_int periods_per_year));
               ann_vol = fmul (std_s 0 port_ret) (fsqrt (real_of_int periods_per_year));
               sharpe = fdiv (fsub ann_ret (Num rf)) (fadd ann_vol (Num (1 / 10 ^ 12)));
               port_price = cumprod (map (\<lambda>r. 1 + r) port_ret);
               mdd = max_drawdown port_price
           in case cvar port_ret (95 / 100) of
                Inl e \<Rightarrow> Inl e
              | Inr cvar95 \<Rightarrow>
                  Inr [(''ann_return'', ann_ret), (''ann_vol'', ann_vol), (''sharpe'', sharpe),
                       (''max_drawdown'', mdd), (''cvar_95'', cvar95)]))"

section \<open>Properties of the return transform\<close>

text \<open>
  C4. \<open>to_returns\<close> raises the invalid-method error exactly when the method string is
  neither "simple" nor "log"; it then produces no table, whatever the prices and the
  \<open>dropna\<close> flag are, and for the two known methods it always produces one.
\<close>

theorem to_returns_invalid_method_iff:
  "(to_returns prices m d = Inl InvalidMethod) = (m \<noteq> ''simple'' \<and> m \<noteq> ''log'')
   \<and> (\<exists>ret. to_returns prices m d = Inr ret) = (m = ''simple'' \<or> m = ''log'')
   \<and> (isl (to_returns prices m d) = isl (to_returns prices' m d'))"
  by (auto simp: to_returns_def)

theorem to_returns_invalid_method_witness:
  "to_returns [[100, 101]] ''sample'' True = Inl InvalidMethod
   \<and> to_returns [[100, 101]] ''simple'' True \<noteq> Inl InvalidMethod"
  using to_returns_invalid_method_iff [of "[[100, 101]]" "''sample''" True]
        to_returns_invalid_method_iff [of "[[100, 101]]" "''simple''" True]
  by simp

lemma mask_all_num:
  "length r = k \<Longrightarrow> map2 (\<lambda>x k. \<not> is_nan x \<and> k) (map Num r) (replicate k True) = replicate k True"
  by (induction r arbitrary: k) auto

lemma keep_mask_first_row:
  assumes "\<forall>r \<in> set R. length r = k"
  shows "foldr (\<lambda>c m. map2 (\<lambda>x k. \<not> is_nan x \<and> k) c m) (map (\<lambda>r. NaN # map Num r) R)
           (replicate (Suc k) True) =
         (if R = [] then replicate (Suc k) True else False # replicate k True)"
  using assms
proof (induction R)
  case Nil
  then show ?case by simp
next
  case (Cons r R)
  then show ?case by (cases "R = []") (simp_all add: mask_all_num)
qed

lemma select_all_true:
  "length ys = k \<Longrightarrow> map fst (filter snd (zip ys (replicate k True))) = ys"
  by (induction ys arbitrary: k) auto

lemma dropna_first_row:
  assumes "\<forall>r \<in> set R. length r = k"
  shows "dropna (map (\<lambda>r. NaN # map Num r) R) = map (map Num) R"
proof (cases R)
  case Nil
  then show ?thesis by (simp add: dropna_def)
next
  case (Cons r0 R0)
  have len: "length r0 = k" using assms Cons by simp
  have "keep_mask (map (\<lambda>r. NaN # map Num r) R) = False # replicate k True"
    unfolding keep_mask_def
    using keep_mask_first_row [OF assms] Cons len by (simp add: nrows_def)
  then show ?thesis
    using assms by (simp add: dropna_def select_rows_def select_all_true)
qed

lemma pct_cells_nonzero:
  "\<forall>p \<in> set xs. p \<noteq> 0 \<Longrightarrow>
     map2 (\<lambda>prev cur. fsub (fdiv (Num cur) (Num prev)) (Num 1)) xs ys =
     map Num (map2 (\<lambda>prev cur. cur / prev - 1) xs ys)"
proof (induction xs arbitrary: ys)
  case Nil
  then show ?case by simp
next
  case (Cons x xs)
  then show ?case by (cases ys) (simp_all add: fsub_def)
qed

lemma pct_change_positive:
  assumes "\<forall>p \<in> set (p0 # ps). 0 < p"
  shows "pct_change (p0 # ps) =
           NaN # map Num (map2 (\<lambda>prev cur. cur / prev - 1) (p0 # ps) ps)"
proof -
  have "\<forall>p \<in> set (p0 # ps). p \<noteq> 0" using assms by auto
  then show ?thesis using pct_cells_nonzero [of "p0 # ps" ps] by simp
qed

lemma cumprod_round_trip:
  assumes "\<forall>p \<in> set (p0 # ps). 0 < p" and "c * a = p0"
  shows "map ((*) c) (cumprod_from a (map (\<lambda>r. 1 + r) (map2 (\<lambda>prev cur. cur / prev - 1) (p0 # ps) ps)))
         = ps"
  using assms
proof (induction ps arbitrary: p0 a)
  case Nil
  then show ?case by simp
next
  case (Cons x xs)
  have p0: "p0 \<noteq> 0" using Cons.prems(1) by auto
  have step: "c * (a * (x / p0)) = x" using Cons.prems(2) p0
    by (metis mult.assoc nonzero_mult_div_cancel_left times_divide_eq_right)
  have "map ((*) c) (cumprod_from (a * (x / p0))
          (map (\<lambda>r. 1 + r) (map2 (\<lambda>prev cur. cur / prev - 1) (x # xs) xs))) = xs"
    using Cons.IH [of x "a * (x / p0)"] Cons.prems(1) step by simp
  then show ?case using step by simp
qed

text \<open>
  C8. For a table of positive prices with at least one row, the simple returns of
  \<open>to_returns\<close> (first row dropped) are finite, one per later row, and in every column
  the first price times the cumulative product of \<open>1 + r\<close> gives back the later prices.
\<close>

theorem simple_returns_round_trip:
  assumes "\<forall>c \<in> set prices. length c = T" and "0 < T"
    and "\<forall>c \<in> set prices. \<forall>p \<in> set c. 0 < p"
  shows "\<exists>R. to_returns prices ''simple'' True = Inr (map (map Num) R)
             \<and> length R = length prices
             \<and> (\<forall>j < length prices. length (R ! j) = T - 1
                  \<and> map ((*) (hd (prices ! j))) (cumprod (map (\<lambda>r. 1 + r) (R ! j)))
                      = tl (prices ! j))"
proof -
  let ?rets = "\<lambda>c. map2 (\<lambda>prev cur. cur / prev - 1) c (tl c)"
  let ?R = "map ?rets prices"
  have col: "pct_change c = NaN # map Num (?rets c)" if "c \<in> set prices" for c
  proof -
    have "length c = T" using assms(1) that by blast
    then obtain p0 ps where c: "c = p0 # ps"
      using assms(2) by (cases c) auto
    show ?thesis using pct_change_positive [of p0 ps] assms(3) that c by simp
  qed
  have eq: "map pct_change prices = map (\<lambda>r. NaN # map Num r) ?R"
    using col by simp
  have lens: "\<forall>r \<in> set ?R. length r = T - 1"
    using assms(1) by auto
  have "dropna (map pct_change prices) = map (map Num) ?R"
    unfolding eq by (rule dropna_first_row [OF lens])
  then have ret: "to_returns prices ''simple'' True = Inr (map (map Num) ?R)"
    by (simp add: to_returns_def)
  have trip: "length (?R ! j) = T - 1
      \<and> map ((*) (hd (prices ! j))) (cumprod (map (\<lambda>r. 1 + r) (?R ! j))) = tl (prices ! j)"
    if j: "j < length prices" for j
  proof -
    have mem: "prices ! j \<in> set prices" using j by simp
    have lenT: "length (prices ! j) = T" using assms(1) mem by blast
    then obtain p0 ps where c: "prices ! j = p0 # ps"
      using assms(2) by (cases "prices ! j") auto
    have pos: "\<forall>p \<in> set (p0 # ps). 0 < p" using assms(3) mem c by metis
    have len: "length ps = T - 1" using c lenT by simp
    show ?thesis
      using j c len cumprod_round_trip [OF pos, of p0 1] by (simp add: cumprod_def)
  qed
  have "length ?R = length prices" by simp
  with ret trip show ?thesis by blast
qed

theorem simple_returns_round_trip_witness:
  "to_returns [[100, 110, 99], [50, 40, 60]] ''simple'' True
     = Inr [[Num (1 / 10), Num (- (1 / 10))], [Num (- (1 / 5)), Num (1 / 2)]]
   \<and> map ((*) 100) (cumprod (map (\<lambda>r. 1 + r) [1 / 10, - (1 / 10)])) = [110, 99]
   \<and> map ((*) 50) (cumprod (map (\<lambda>r. 1 + r) [- (1 / 5), 1 / 2])) = [40, 60]"
  using simple_returns_round_trip [of "[[100, 110, 99], [50, 40, 60]]" 3]
  by (simp add: to_returns_def dropna_def keep_mask_def nrows_def select_rows_def fsub_def
      cumprod_def)

lemma log_cells_positive:
  "\<forall>p \<in> set xs. 0 < p \<Longrightarrow> \<forall>p \<in> set ys. 0 < p \<Longrightarrow>
     map2 (\<lambda>prev cur. fsub cur prev) (map flog xs) (map flog ys) =
     map Num (map2 (\<lambda>prev cur. ln cur - ln prev) xs ys)"
proof (induction xs arbitrary: ys)
  case Nil
  then show ?case by simp
next
  case (Cons x xs)
  then show ?case by (cases ys) (simp_all add: fsub_def flog_def)
qed

lemma log_diff_positive:
  assumes "\<forall>p \<in> set (p0 # ps). 0 < p"
  shows "diff (np_log (p0 # ps)) =
           NaN # map Num (map2 (\<lambda>prev cur. ln cur - ln prev) (p0 # ps) ps)"
proof -
  have "\<forall>p \<in> set ps. 0 < p" using assms by simp
  then show ?thesis
    using log_cells_positive [OF assms, of ps] by (simp add: np_log_def)
qed

lemma log_returns_telescope:
  "sum_list (map2 (\<lambda>prev cur. ln cur - ln prev) (p0 # ps) ps) = ln (last (p0 # ps)) - ln p0"
  by (induction ps arbitrary: p0) simp_all

text \<open>
  C9. For a table of positive prices with at least one row, the log returns of
  \<open>to_returns\<close> (first row dropped) are finite, and in every column their sum equals
  \<open>ln (P_last / P_first)\<close>.
\<close>

theorem log_returns_telescoping:
  assumes "\<forall>c \<in> set prices. length c = T" and "0 < T"
    and "\<forall>c \<in> set prices. \<forall>p \<in> set c. 0 < p"
  shows "\<exists>R. to_returns prices ''log'' True = Inr (map (map Num) R)
             \<and> length R = length prices
             \<and> (\<forall>j < length prices. length (R ! j) = T - 1
                  \<and> sum_list (R ! j) = ln (last (prices ! j) / hd (prices ! j)))"
proof -
  let ?rets = "\<lambda>c. map2 (\<lambda>prev cur. ln cur - ln prev) c (tl c)"
  let ?R = "map ?rets prices"
  have col: "diff (np_log c) = NaN # map Num (?rets c)" if "c \<in> set prices" for c
  proof -
    have "length c = T" using assms(1) that by blast
    then obtain p0 ps where c: "c = p0 # ps"
      using assms(2) by (cases c) auto
    show ?thesis using log_diff_positive [of p0 ps] assms(3) that c by simp
  qed
  have eq: "map (\<lambda>c. diff (np_log c)) prices = map (\<lambda>r. NaN # map Num r) ?R"
    using col by simp
  have lens: "\<forall>r \<in> set ?R. length r = T - 1"
    using assms(1) by auto
  have "dropna (map (\<lambda>c. diff (np_log c)) prices) = map (map Num) ?R"
    unfolding eq by (rule dropna_first_row [OF lens])
  then have ret: "to_returns prices ''log'' True = Inr (map (map Num) ?R)"
    by (simp add: to_returns_def)
  have tele: "length (?R ! j) = T - 1
      \<and> sum_list (?R ! j) = ln (last (prices ! j) / hd (prices ! j))"
    if j: "j < length prices" for j
  proof -
    have mem: "prices ! j \<in> set prices" using j by simp
    have lenT: "length (prices ! j) = T" using assms(1) mem by blast
    then obtain p0 ps where c: "prices ! j = p0 # ps"
      using assms(2) by (cases "prices ! j") auto
    have pos: "\<forall>p \<in> set (p0 # ps). 0 < p" using assms(3) mem c by metis
    have len: "length ps = T - 1" using c lenT by simp
    have p0: "0 < p0" using pos by simp
    have "last (p0 # ps) \<in> set (p0 # ps)" by (rule last_in_set) simp
    then have pl: "0 < last (p0 # ps)" using pos by blast
    have "ln (last (p0 # ps) / p0) = ln (last (p0 # ps)) - ln p0"
      using p0 pl by (simp add: ln_div)
    then show ?thesis
      using j c len log_returns_telescope [of p0 ps] by simp
  qed
  have "length ?R = length prices" by simp
  with ret tele show ?thesis by blast
qed

theorem log_returns_telescoping_witness:
  "to_returns [[1, 2, 4]] ''log'' True = Inr [[Num (ln 2), Num (ln 4 - ln 2)]]
   \<and> sum_list [ln 2, ln 4 - ln 2] = ln (4 / (1::real))"
  using log_returns_telescoping [of "[[1, 2, 4]]" 3]
  by (simp add: to_returns_def dropna_def keep_mask_def nrows_def select_rows_def fsub_def
      np_log_def flog_def)

section \<open>Properties of the risk metrics\<close>

lemma fsqrt_nonneg: "0 \<le> x \<Longrightarrow> fsqrt x = Num (sqrt x)"
  by (simp add: fsqrt_def)

lemma sqrt_aux: "sqrt (1 / 10000) = 1 / 100"
  by (rule real_sqrt_unique) (simp_all add: power2_eq_square)

text \<open>
  C5. For a table whose columns are non-empty and a non-negative number of periods per
  year \<open>p\<close>, \<open>annualize_mean_vol\<close> returns, column by column, the mean times \<open>p\<close> and the
  population standard deviation (squared deviations divided by \<open>n\<close>, not by \<open>n - 1\<close>)
  times the square root of \<open>p\<close>.
\<close>

theorem annualize_mean_vol_population:
  assumes "\<forall>c \<in> set returns. c \<noteq> []" and "0 \<le> p"
  shows "annualize_mean_vol returns p =
           (map (\<lambda>c. Num (sum_list c / real (length c) * real_of_int p)) returns,
            map (\<lambda>c. Num (sqrt ((\<Sum>x\<leftarrow>c. (x - sum_list c / real (length c))\<^sup>2) / real (length c))
                           * sqrt (real_of_int p))) returns)"
  using assms by (simp add: annualize_mean_vol_def mean_s_def std_s_def fsqrt_nonneg Let_def)

theorem annualize_mean_vol_population_witness:
  "annualize_mean_vol [[1 / 100, 3 / 100]] 4 = ([Num (8 / 100)], [Num (2 / 100)])"
  using annualize_mean_vol_population [of "[[1 / 100, 3 / 100]]" 4]
  by (simp add: power2_eq_square sqrt_aux)

lemma length_cummax_from: "length (cummax_from m xs) = length xs"
  by (induction xs arbitrary: m) simp_all

lemma length_cummax: "length (cummax xs) = length xs"
  by (cases xs) (simp_all add: length_cummax_from)

lemma cummax_from_nth:
  "t < length xs \<Longrightarrow> cummax_from m xs ! t = max m (Max (set (take (Suc t) xs)))"
proof (induction xs arbitrary: m t)
  case Nil
  then show ?case by simp
next
  case (Cons x xs)
  show ?case
  proof (cases t)
    case 0
    then show ?thesis by simp
  next
    case (Suc k)
    then have k: "k < length xs" using Cons.prems by simp
    have ne: "set (take (Suc k) xs) \<noteq> {}" using k by (cases xs) auto
    show ?thesis
      using Suc Cons.IH [OF k, of "max m x"] ne
      by (simp add: max.assoc)
  qed
qed

lemma cummax_nth:
  assumes "t < length xs"
  shows "cummax xs ! t = Max (set (take (Suc t) xs))"
proof (cases xs)
  case Nil
  then show ?thesis using assms by simp
next
  case (Cons x ys)
  show ?thesis
  proof (cases t)
    case 0
    then show ?thesis using Cons by simp
  next
    case (Suc k)
    then have k: "k < length ys" using assms Cons by simp
    have ne: "set (take (Suc k) ys) \<noteq> {}" using k by (cases ys) auto
    show ?thesis
      using Suc Cons cummax_from_nth [OF k, of x] ne by simp
  qed
qed

lemma fold_fmin2_Num: "fold fmin2 (map Num ys) (Num y) = Num (fold min ys y)"
  by (induction ys arbitrary: y) (simp_all add: min.commute)

lemma fmin_skipna_Num:
  assumes "ys \<noteq> []"
  shows "fmin_skipna (map Num ys) = Num (Min (set ys))"
proof -
  obtain y zs where ys: "ys = y # zs" using assms by (cases ys) auto
  have "filter (\<lambda>x. \<not> is_nan x) (map Num ys) = map Num ys"
    by (induction ys) simp_all
  then show ?thesis
    using ys Min.set_eq_fold [of y zs] by (simp add: fmin_skipna_def fold_fmin2_Num)
qed

lemma drawdown_cells:
  assumes "\<forall>p \<in> set P. 0 < p"
  shows "map2 (\<lambda>p m. fsub (fdiv (Num p) (Num m)) (Num 1)) P (cummax P) =
         map Num (map (\<lambda>t. P ! t / Max (set (take (Suc t) P)) - 1) [0..<length P])"
proof (rule nth_equalityI)
  show "length (map2 (\<lambda>p m. fsub (fdiv (Num p) (Num m)) (Num 1)) P (cummax P)) =
        length (map Num (map (\<lambda>t. P ! t / Max (set (take (Suc t) P)) - 1) [0..<length P]))"
    by (simp add: length_cummax)
next
  fix t
  assume "t < length (map2 (\<lambda>p m. fsub (fdiv (Num p) (Num m)) (Num 1)) P (cummax P))"
  then have t: "t < length P" by (simp add: length_cummax)
  have "P ! t \<in> set (take (Suc t) P)"
    using t by (metis in_set_conv_nth length_take lessI min_less_iff_conj nth_take)
  then have "P ! t \<le> Max (set (take (Suc t) P))" by simp
  moreover have "0 < P ! t" using assms t by simp
  ultimately have pos: "Max (set (take (Suc t) P)) \<noteq> 0" by linarith
  show "map2 (\<lambda>p m. fsub (fdiv (Num p) (Num m)) (Num 1)) P (cummax P) ! t =
        map Num (map (\<lambda>t. P ! t / Max (set (take (Suc t) P)) - 1) [0..<length P]) ! t"
    using t pos by (simp add: length_cummax cummax_nth fsub_def)
qed

lemma cummax_from_sorted:
  "sorted (m # xs) \<Longrightarrow> cummax_from m xs = xs"
  by (induction xs arbitrary: m) (simp_all add: max_absorb2)

lemma cummax_sorted: "sorted xs \<Longrightarrow> cummax xs = xs"
  by (cases xs) (simp_all add: cummax_from_sorted)

text \<open>
  C6. For a non-empty series of positive prices, \<open>max_drawdown\<close> returns the minimum over
  \<open>t\<close> of \<open>P_t / runningMax_t - 1\<close>, where \<open>runningMax_t\<close> is the maximum of \<open>P_0 .. P_t\<close>;
  that value is at most 0, and it is exactly 0 when the series is non-decreasing.
\<close>

theorem max_drawdown_running_max:
  assumes "P \<noteq> []" and "\<forall>p \<in> set P. 0 < p"
  shows "max_drawdown P =
           Num (Min ((\<lambda>t. P ! t / Max (set (take (Suc t) P)) - 1) ` {..<length P}))
         \<and> Min ((\<lambda>t. P ! t / Max (set (take (Suc t) P)) - 1) ` {..<length P}) \<le> 0
         \<and> (sorted P \<longrightarrow> max_drawdown P = Num 0)"
proof -
  let ?dd = "\<lambda>t. P ! t / Max (set (take (Suc t) P)) - 1"
  have ne: "map ?dd [0..<length P] \<noteq> []" using assms(1) by simp
  have set_eq: "set (map ?dd [0..<length P]) = ?dd ` {..<length P}"
    by (simp add: lessThan_atLeast0)
  have val: "max_drawdown P = Num (Min (?dd ` {..<length P}))"
    unfolding max_drawdown_def Let_def drawdown_cells [OF assms(2)]
    using fmin_skipna_Num [OF ne] set_eq by simp
  have le: "?dd t \<le> 0" if "t < length P" for t
  proof -
    have "P ! t \<in> set (take (Suc t) P)"
      using that by (metis in_set_conv_nth length_take lessI min_less_iff_conj nth_take)
    then have a: "P ! t \<le> Max (set (take (Suc t) P))" by simp
    have b: "0 < P ! t" using assms(2) that by simp
    then have "0 < Max (set (take (Suc t) P))" using a by linarith
    then show ?thesis using a by simp
  qed
  have fin: "finite (?dd ` {..<length P})" by simp
  have len: "0 < length P" using assms(1) by simp
  then have "?dd 0 \<in> ?dd ` {..<length P}" by blast
  then have "Min (?dd ` {..<length P}) \<le> ?dd 0" using fin by (rule Min_le [rotated])
  also have "?dd 0 \<le> 0" using le [OF len] .
  finally have min_le: "Min (?dd ` {..<length P}) \<le> 0" .
  have zero: "max_drawdown P = Num 0" if s: "sorted P"
  proof -
    have "map2 (\<lambda>p m. fsub (fdiv (Num p) (Num m)) (Num 1)) P P = map Num (map (\<lambda>_. 0) P)"
      using assms(2) by (induction P) (simp_all add: fsub_def)
    moreover have "map (\<lambda>_. 0::real) P \<noteq> []" using assms(1) by simp
    moreover have "set (map (\<lambda>_. 0::real) P) = {0}" using assms(1) by (cases P) auto
    ultimately show ?thesis
      unfolding max_drawdown_def Let_def cummax_sorted [OF s]
      using fmin_skipna_Num [of "map (\<lambda>_. 0::real) P"] by simp
  qed
  show ?thesis using val min_le zero by simp
qed

theorem max_drawdown_running_max_witness:
  "max_drawdown [100, 120, 90] = Num (- (1 / 4))
   \<and> max_drawdown [100, 110, 110] = Num 0"
  using max_drawdown_running_max [of "[100, 120, 90]"]
        max_drawdown_running_max [of "[100, 110, 110]"]
  by (simp add: lessThan_Suc numeral_3_eq_3)

section \<open>Properties of the portfolio evaluation\<close>

lemma matvec_example: "matvec [[1 / 100, 3 / 100]] [1] = Inr [1 / 100, 3 / 100]"
  by (simp add: matvec_def nrows_def row_at_def upt_rec)

lemma quantile_example: "quantile_s [1 / 100, 3 / 100] (1 / 20) = Inr (Num (11 / 1000))"
  by (simp add: quantile_s_def Let_def)

lemma cvar_example: "cvar [1 / 100, 3 / 100] (19 / 20) = Inr (Num (- (1 / 100)))"
  by (simp add: cvar_def quantile_example mean_s_def)

lemma mdd_example: "max_drawdown (cumprod [101 / 100, 103 / 100]) = Num 0"
  by (simp add: max_drawdown_def cumprod_def fmin_skipna_def fsub_def)

lemma portfolio_stats_example:
  "portfolio_stats [1] [[1 / 100, 3 / 100]] (1 / 100) 4 =
     Inr [(''ann_return'', Num (8 / 100)), (''ann_vol'', Num (2 / 100)),
          (''sharpe'', Num ((8 / 100 - 1 / 100) / (2 / 100 + 1 / 10 ^ 12))),
          (''max_drawdown'', Num 0), (''cvar_95'', Num (- 1 / 100))]"
  unfolding portfolio_stats_def matvec_example
  by (simp add: cvar_example mdd_example mean_s_def std_s_def fsqrt_nonneg fsub_def
        power2_eq_square sqrt_aux Let_def)

lemma cvar_95_returns: "\<exists>c. cvar rs (95 / 100) = Inr c"
  by (simp add: cvar_def quantile_s_def Let_def)

text \<open>What the code computes in the Sharpe field, for any input: the rate subtracted from
  the annualized return is \<open>rf\<close> as passed.\<close>

lemma portfolio_stats_sharpe_field:
  assumes "matvec returns w = Inr pr" and "pr \<noteq> []" and "0 \<le> p"
  shows "\<exists>d. portfolio_stats w returns rf p = Inr d
           \<and> map_of d ''sharpe'' =
               Some (Num ((sum_list pr / real (length pr) * real_of_int p - rf)
                  / (sqrt ((\<Sum>x\<leftarrow>pr. (x - sum_list pr / real (length pr))\<^sup>2) / real (length pr))
                       * sqrt (real_of_int p) + 1 / 10 ^ 12)))"
proof -
  let ?vol = "sqrt ((\<Sum>x\<leftarrow>pr. (x - sum_list pr / real (length pr))\<^sup>2) / real (length pr))
                * sqrt (real_of_int p)"
  obtain c where c: "cvar pr (95 / 100) = Inr c"
    using cvar_95_returns by blast
  have "0 \<le> (\<Sum>x\<leftarrow>pr. (x - sum_list pr / real (length pr))\<^sup>2)"
    by (rule sum_list_nonneg) auto
  then have "0 \<le> ?vol" using assms(3) by simp
  then have den: "?vol + 1 / 10 ^ 12 \<noteq> 0" by (smt (verit) divide_pos_pos zero_less_numeral zero_less_power zero_less_one)
  show ?thesis
    unfolding portfolio_stats_def
    using assms c den
    by (simp add: Let_def mean_s_def std_s_def fsqrt_nonneg fsub_def)
qed

text \<open>
  C1, at the input weights \<open>[1]\<close>, one asset with returns \<open>0.01, 0.03\<close>, per-period
  risk-free rate \<open>0.01\<close> and 4 periods per year: the annualized return is \<open>0.08\<close>, the
  annualized volatility \<open>0.02\<close>, and the Sharpe field is \<open>(0.08 - 0.01) / (0.02 + 1e-12)\<close>.
  The rate subtracted is the raw per-period rate \<open>0.01\<close>, not the annualized rate
  \<open>0.01 * 4\<close>, and the two quotients differ.
\<close>

theorem portfolio_stats_sharpe_raw_rf:
  "portfolio_stats [1] [[1 / 100, 3 / 100]] (1 / 100) 4 =
     Inr [(''ann_return'', Num (8 / 100)), (''ann_vol'', Num (2 / 100)),
          (''sharpe'', Num ((8 / 100 - 1 / 100) / (2 / 100 + 1 / 10 ^ 12))),
          (''max_drawdown'', Num 0), (''cvar_95'', Num (- 1 / 100))]
   \<and> (8 / 100 - 1 / 100) / (2 / 100 + 1 / 10 ^ 12)
       \<noteq> ((8 / 100 - (1 / 100) * 4) / (2 / 100 + 1 / 10 ^ 12) :: real)"
  by (simp add: portfolio_stats_example)

text \<open>
  C3, as the code has it. When the weight count equals the column count,
  \<open>portfolio_stats\<close> returns a dictionary with exactly the five keys \<open>ann_return\<close>,
  \<open>ann_vol\<close>, \<open>sharpe\<close>, \<open>max_drawdown\<close> and \<open>cvar_95\<close>; it holds no CAGR value.
\<close>

theorem portfolio_stats_keys:
  assumes "length returns = length weights"
  shows "\<exists>d. portfolio_stats weights returns rf p = Inr d
             \<and> map fst d = [''ann_return'', ''ann_vol'', ''sharpe'', ''max_drawdown'', ''cvar_95'']
             \<and> map_of d ''cagr'' = None"
proof -
  obtain pr where pr: "matvec returns weights = Inr pr"
    using assms by (simp add: matvec_def)
  obtain c where c: "cvar pr (95 / 100) = Inr c"
    using cvar_95_returns by blast
  show ?thesis
    unfolding portfolio_stats_def using pr c by (simp add: Let_def)
qed

theorem portfolio_stats_keys_witness:
  "\<exists>d. portfolio_stats [1] [[1 / 100, 3 / 100]] (1 / 100) 4 = Inr d
       \<and> map fst d = [''ann_return'', ''ann_vol'', ''sharpe'', ''max_drawdown'', ''cvar_95'']
       \<and> map_of d ''cagr'' = None"
  using portfolio_stats_keys [of "[[1 / 100, 3 / 100]]" "[1]" "1 / 100" 4] by simp

text \<open>
  C3 with a CAGR value in the returned dictionary does not hold: at the input above the
  dictionary has no entry under \<open>cagr\<close>.
\<close>

theorem portfolio_stats_has_no_cagr:
  "\<not> (\<exists>d v. portfolio_stats [1] [[1 / 100, 3 / 100]] (1 / 100) 4 = Inr d
            \<and> map_of d ''cagr'' = Some v)"
  by (simp add: portfolio_stats_example)

end
